theory Spec2Isabelle
  imports Complex_Main "HOL-Library.Log_Nat"
begin

section \<open>Numbers, time and rounding\<close>

text \<open>
  The program computes on Python floats, which are binary64 numbers. The embedding takes
  a finite float as the rational number that it is. A literal, and the result of every
  arithmetic operation, is the exact value rounded to the nearest float, a tie going to
  the even significand: 53 significant bits, the exponent of the last place no lower
  than \<open>-1074\<close>. Results of magnitude \<open>2^1024\<close> and above, which Python turns into
  infinities, are beyond the embedding; the amounts of the program stay far below.
\<close>

definition round_half_even :: "rat \<Rightarrow> int" where
  "round_half_even x =
     (let f = \<lfloor>x\<rfloor>; d = x - of_int f
      in if d < 1 / 2 then f
         else if 1 / 2 < d then f + 1
         else if even f then f else f + 1)"

text \<open>The binary exponent of a non-zero number: \<open>2^e \<le> |x| < 2^(e+1)\<close>.\<close>

definition expo :: "rat \<Rightarrow> int" where
  "expo x =
     (case quotient_of \<bar>x\<bar> of
        (p, q) \<Rightarrow>
          let d = bitlen p - bitlen q
          in if 2 powi d \<le> \<bar>x\<bar> then d else d - 1)"

definition py_float :: "rat \<Rightarrow> rat" where
  "py_float x =
     (let ulp = 2 powi (max (expo x) (- 1022) - 52)
      in of_int (round_half_even (x / ulp)) * ulp)"

definition is_float :: "rat \<Rightarrow> bool" where
  "is_float x \<longleftrightarrow> py_float x = x"

definition float_add :: "rat \<Rightarrow> rat \<Rightarrow> rat" where
  "float_add x y = py_float (x + y)"

definition float_sub :: "rat \<Rightarrow> rat \<Rightarrow> rat" where
  "float_sub x y = py_float (x - y)"

definition float_mul :: "rat \<Rightarrow> rat \<Rightarrow> rat" where
  "float_mul x y = py_float (x * y)"

text \<open>
  \<^verbatim>\<open>round(x, n)\<close> on a float: the exact value of \<open>x\<close> is rounded to \<open>n\<close> decimal
  places, a tie going to the even neighbour, and the decimal so found is read back as
  a float.
\<close>

definition py_round :: "rat \<Rightarrow> nat \<Rightarrow> rat" where
  "py_round x n = py_float (of_int (round_half_even (x * 10 ^ n)) / 10 ^ n)"

text \<open>
  A \<^verbatim>\<open>datetime\<close> is the number of microseconds since the epoch, an \<^typ>\<open>int\<close>, and
  so is a \<^verbatim>\<open>timedelta\<close>; \<^verbatim>\<open>total_seconds()\<close> divides by \<open>10^6\<close> into a float.
\<close>

definition timedelta_minutes :: "int \<Rightarrow> int" where
  "timedelta_minutes m = m * 60 * 1000000"

definition total_seconds :: "int \<Rightarrow> rat" where
  "total_seconds d = py_float (of_int d / 1000000)"

text \<open>
  \<^verbatim>\<open>random.uniform(a, b)\<close> is \<^verbatim>\<open>a + (b - a) * random()\<close>; the draw of
  \<^verbatim>\<open>random()\<close>, a float \<open>u\<close> with \<open>0 \<le> u < 1\<close>, is an argument.
\<close>

definition uniform :: "rat \<Rightarrow> rat \<Rightarrow> rat \<Rightarrow> rat" where
  "uniform a b u = float_add a (float_mul (float_sub b a) u)"

section \<open>Models (app.py, lines 24--58)\<close>

record Currency =
  code :: string
  balance :: rat

record User =
  user_id :: string
  name :: string
  currencies :: "string \<rightharpoonup> Currency"
  phone :: string

record Quote =
  q_id :: string
  source_currency :: string
  target_currency :: string
  rate :: rat
  fees :: rat
  expiry :: int
  q_amount_sent :: rat
  q_amount_received :: rat

record Transaction =
  tx_id :: string
  sender_id :: string
  receiver_id :: string
  amount_sent :: rat
  currency_sent :: string
  amount_received :: rat
  currency_received :: string
  quote_id :: string
  status :: string
  timestamp :: int

text \<open>
  The in-memory database of lines 61--66 together with the key \<^verbatim>\<open>current_quote\<close>
  of the session state, which is present or absent. The key \<^verbatim>\<open>quote_time\<close> only
  feeds the local \<^verbatim>\<open>elapsed\<close> of line 164, which nothing reads; it is left out.
\<close>

record session =
  users :: "string \<rightharpoonup> User"
  quotes :: "string \<rightharpoonup> Quote"
  transactions :: "Transaction list"
  current_quote :: "Quote option"

text \<open>
  What a run of the script can report: the warning of line 167 and the
  \<^verbatim>\<open>KeyError\<close> of a failed dictionary subscript are the only two failures that the
  program has. The remaining constructors are the failures that the specification names
  for quoting and settlement; no path of the program produces them.
\<close>

datatype error =
    QuoteExpired
  | KeyError
  | QuoteNotFound
  | QuoteAlreadyConsumed
  | InsufficientFunds
  | FeeExceedsAmount
  | InvalidAmount
  | UnsupportedCurrency

section \<open>Fees and rates\<close>

text \<open>app.py, lines 68--69: \<^verbatim>\<open>round(amount * 0.012 + 0.50, 2)\<close>.\<close>

definition calculate_fees :: "rat \<Rightarrow> rat" where
  "calculate_fees amount = py_round (float_add (float_mul amount (py_float 0.012)) (py_float 0.50)) 2"

text \<open>App.py, lines 47--48: \<^verbatim>\<open>round(amount * 0.015 + 1.0, 2)\<close>.\<close>

definition App_calculate_fees :: "rat \<Rightarrow> rat" where
  "App_calculate_fees amount = py_round (float_add (float_mul amount (py_float 0.015)) (py_float 1.0)) 2"

text \<open>app.py, line 90: the table of pinned pairs.\<close>

definition base_rates :: "string \<times> string \<rightharpoonup> rat" where
  "base_rates =
     [(''USD'', ''EUR'') \<mapsto> py_float 0.93,
      (''USD'', ''NGN'') \<mapsto> py_float 1620.0,
      (''EUR'', ''NGN'') \<mapsto> py_float 1750.0]"

text \<open>
  app.py, line 91: \<^verbatim>\<open>base_rates.get((source, target), random.uniform(0.85, 1.15))\<close>,
  the rate resolution inside \<^verbatim>\<open>create_quote\<close>.
\<close>

definition resolve_rate :: "string \<Rightarrow> string \<Rightarrow> rat \<Rightarrow> rat" where
  "resolve_rate source target u =
     (case base_rates (source, target) of
        Some r \<Rightarrow> r
      | None \<Rightarrow> uniform (py_float 0.85) (py_float 1.15) u)"

text \<open>
  App.py, line 63:
  \<^verbatim>\<open>0.92 if source == "USD" and target == "EUR" else random.uniform(0.8, 1.2)\<close>.
\<close>

definition App_resolve_rate :: "string \<Rightarrow> string \<Rightarrow> rat \<Rightarrow> rat" where
  "App_resolve_rate source target u =
     (if source = ''USD'' \<and> target = ''EUR'' then py_float 0.92
      else uniform (py_float 0.8) (py_float 1.2) u)"

text \<open>
  The bounds of the amount widget (line 151) and of \<^verbatim>\<open>resolve_receiver\<close>
  (lines 84--85).
\<close>

definition min_amount :: rat where
  "min_amount = py_float 5.0"

definition max_amount :: rat where
  "max_amount = py_float 15000.0"

section \<open>The processor (app.py, lines 88--106)\<close>

text \<open>
  \<^verbatim>\<open>create_quote\<close> builds the quote, stores it under its id (line 105) and returns
  it; the fresh \<^verbatim>\<open>uuid4\<close>, the clock reading and the random draw are arguments.
\<close>

definition create_quote ::
  "session \<Rightarrow> string \<Rightarrow> string \<Rightarrow> rat \<Rightarrow> string \<Rightarrow> int \<Rightarrow> rat \<Rightarrow> Quote \<times> session" where
  "create_quote s source target amount uuid now u =
     (let rate = resolve_rate source target u;
          fees = calculate_fees amount;
          received = py_round (float_sub (float_mul amount rate) fees) 2;
          quote = \<lparr>q_id = uuid,
                   source_currency = source,
                   target_currency = target,
                   rate = rate,
                   fees = fees,
                   expiry = now + timedelta_minutes 10,
                   q_amount_sent = amount,
                   q_amount_received = received\<rparr>
      in (quote, s\<lparr>quotes := (quotes s)(q_id quote \<mapsto> quote)\<rparr>))"

section \<open>The script (app.py, lines 112--211)\<close>

text \<open>Lines 117--129: the demo user made for a phone number seen for the first time.\<close>

definition demo_user :: "string \<Rightarrow> string \<Rightarrow> User" where
  "demo_user uuid ph =
     \<lparr>user_id = uuid,
      name = ''Denzel'',
      currencies =
        [''USD'' \<mapsto> \<lparr>code = ''USD'', balance = py_float 2500.00\<rparr>,
         ''EUR'' \<mapsto> \<lparr>code = ''EUR'', balance = py_float 1800.00\<rparr>,
         ''NGN'' \<mapsto> \<lparr>code = ''NGN'', balance = py_float 4500000.00\<rparr>],
      phone = ph\<rparr>"

definition sidebar :: "session \<Rightarrow> string \<Rightarrow> string \<Rightarrow> session" where
  "sidebar s ph uuid =
     (if ph \<noteq> [] \<and> users s ph = None
      then s\<lparr>users := (users s)(ph \<mapsto> demo_user uuid ph)\<rparr>
      else s)"

text \<open>
  Lines 186--211, the body of the Confirm and Transfer button. The subscript
  \<^verbatim>\<open>users[phone]\<close> of line 191 raises before anything is written; the subscript
  \<^verbatim>\<open>currencies[quote.source_currency]\<close> of line 203 raises after the transaction
  has been appended. The result carries the session as the handler leaves it.
\<close>

definition confirm_transfer ::
  "session \<Rightarrow> string \<Rightarrow> string \<Rightarrow> Quote \<Rightarrow> string \<Rightarrow> int \<Rightarrow> (error + Transaction) \<times> session" where
  "confirm_transfer s ph receiver_phone quote uuid stamp =
     (case users s ph of
        None \<Rightarrow> (Inl KeyError, s)
      | Some sender \<Rightarrow>
          let tx = \<lparr>tx_id = uuid,
                    sender_id = user_id sender,
                    receiver_id = receiver_phone,
                    amount_sent = q_amount_sent quote,
                    currency_sent = source_currency quote,
                    amount_received = q_amount_received quote,
                    currency_received = target_currency quote,
                    quote_id = q_id quote,
                    status = ''Settled'',
                    timestamp = stamp\<rparr>;
              s1 = s\<lparr>transactions := transactions s @ [tx]\<rparr>
          in (case currencies sender (source_currency quote) of
                None \<Rightarrow> (Inl KeyError, s1)
              | Some sender_bal \<Rightarrow>
                  let sender_bal' =
                        sender_bal\<lparr>balance :=
                          float_sub (balance sender_bal)
                            (float_add (q_amount_sent quote) (fees quote))\<rparr>;
                      sender' =
                        sender\<lparr>currencies := (currencies sender)(source_currency quote \<mapsto> sender_bal')\<rparr>;
                      s2 = s1\<lparr>users := (users s1)(ph \<mapsto> sender')\<rparr>
                  in (Inr tx, s2\<lparr>current_quote := None\<rparr>)))"

text \<open>
  Lines 160--211, the quote panel. Without a current quote nothing is drawn. With one,
  the clock is read once (line 165); an expired quote is reported and dropped, and only
  an unexpired one gets the button. The result is the failure reported, or the
  transaction made, if any.
\<close>

definition quote_panel ::
  "session \<Rightarrow> string \<Rightarrow> string \<Rightarrow> int \<Rightarrow> bool \<Rightarrow> string \<Rightarrow> int
     \<Rightarrow> (error + Transaction option) \<times> session" where
  "quote_panel s ph receiver_phone now confirm uuid stamp =
     (case current_quote s of
        None \<Rightarrow> (Inr None, s)
      | Some quote \<Rightarrow>
          let remaining = max 0 (total_seconds (expiry quote - now))
          in if remaining \<le> 0 then (Inl QuoteExpired, s\<lparr>current_quote := None\<rparr>)
             else if confirm then
               (case confirm_transfer s ph receiver_phone quote uuid stamp of
                  (Inl e, s') \<Rightarrow> (Inl e, s')
                | (Inr tx, s') \<Rightarrow> (Inr (Some tx), s'))
             else (Inr None, s))"

text \<open>
  One run of the script. A run sees at most one button pressed; the widgets' values,
  the fresh identifiers, the clock readings and the random draw are its inputs.
\<close>

datatype click = NoClick | GetLockedQuote | ConfirmTransfer

record inputs =
  in_phone :: string
  in_receiver_phone :: string
  in_source_curr :: string
  in_target_curr :: string
  in_amount :: rat
  in_click :: click
  user_uuid :: string
  quote_uuid :: string
  tx_uuid :: string
  quote_now :: int
  panel_now :: int
  class_now :: int
  draw :: rat

definition run :: "session \<Rightarrow> inputs \<Rightarrow> (error + Transaction option) \<times> session" where
  "run s i =
     (let s1 = sidebar s (in_phone i) (user_uuid i)
      in if in_receiver_phone i = [] then (Inr None, s1)
         else
           let s2 =
                 (if in_click i = GetLockedQuote \<and> 0 < in_amount i
                  then
                    (case create_quote s1 (in_source_curr i) (in_target_curr i) (in_amount i)
                            (quote_uuid i) (quote_now i) (draw i) of
                       (quote, s') \<Rightarrow> s'\<lparr>current_quote := Some quote\<rparr>)
                  else s1)
           in quote_panel s2 (in_phone i) (in_receiver_phone i) (panel_now i)
                (in_click i = ConfirmTransfer) (tx_uuid i) (class_now i))"

text \<open>Lines 61--66: the session as the first run of the script finds it.\<close>

definition init_session :: session where
  "init_session = \<lparr>users = Map.empty, quotes = Map.empty, transactions = [], current_quote = None\<rparr>"

section \<open>Observations on a session\<close>

text \<open>The balance of a user in a currency, where the entry exists.\<close>

definition balance_of :: "session \<Rightarrow> string \<Rightarrow> string \<Rightarrow> rat option" where
  "balance_of s ph c =
     (case users s ph of
        None \<Rightarrow> None
      | Some u \<Rightarrow> map_option balance (currencies u c))"

text \<open>Every balance entry of every user is non-negative.\<close>

definition balances_nonneg :: "session \<Rightarrow> bool" where
  "balances_nonneg s \<longleftrightarrow> (\<forall>ph c b. balance_of s ph c = Some b \<longrightarrow> 0 \<le> b)"

text \<open>
  The current quote, if there is one, costs the user no more than the balance held in
  its source currency, if there is such an entry.
\<close>

definition affordable :: "session \<Rightarrow> string \<Rightarrow> bool" where
  "affordable s ph =
     (case current_quote s of
        None \<Rightarrow> True
      | Some quote \<Rightarrow>
          (case balance_of s ph (source_currency quote) of
             None \<Rightarrow> True
           | Some b \<Rightarrow> float_add (q_amount_sent quote) (fees quote) \<le> b))"

section \<open>A sender, a receiver and two clicks\<close>

definition sender_ph :: string where
  "sender_ph = ''+2348000000001''"

definition receiver_ph :: string where
  "receiver_ph = ''+2348000000002''"

text \<open>
  A run in which the sender asks for a locked quote for an amount in US dollars to be
  received in naira, and a later run in which the sender confirms it.
\<close>

definition get_quote_click :: "rat \<Rightarrow> inputs" where
  "get_quote_click amount =
     \<lparr>in_phone = sender_ph,
      in_receiver_phone = receiver_ph,
      in_source_curr = ''USD'',
      in_target_curr = ''NGN'',
      in_amount = amount,
      in_click = GetLockedQuote,
      user_uuid = ''u1'',
      quote_uuid = ''q1'',
      tx_uuid = ''t1'',
      quote_now = 0,
      panel_now = 1000000,
      class_now = 0,
      draw = py_float 0.5\<rparr>"

definition confirm_click :: "rat \<Rightarrow> inputs" where
  "confirm_click amount =
     (get_quote_click amount)\<lparr>in_click := ConfirmTransfer, tx_uuid := ''t2'',
        panel_now := 5000000, class_now := 4000000\<rparr>"

text \<open>The session after the quote has been made, and the run that confirms it.\<close>

definition quoted :: "rat \<Rightarrow> session" where
  "quoted amount = snd (run init_session (get_quote_click amount))"

definition confirmed :: "rat \<Rightarrow> (error + Transaction option) \<times> session" where
  "confirmed amount = run (quoted amount) (confirm_click amount)"

text \<open>
  A session in which the receiver has opened the application before, and so holds the
  balances of a demo user.
\<close>

definition receiver_seen :: session where
  "receiver_seen =
     snd (run init_session
       ((get_quote_click 0)\<lparr>in_phone := receiver_ph, in_receiver_phone := [],
          in_click := NoClick, user_uuid := ''u0''\<rparr>))"

section \<open>Rounding to a float\<close>

lemma round_half_even_mono:
  assumes "x \<le> y"
  shows "round_half_even x \<le> round_half_even y"
proof (cases "\<lfloor>x\<rfloor> = \<lfloor>y\<rfloor>")
  case True
  with assms have "x - of_int \<lfloor>x\<rfloor> \<le> y - of_int \<lfloor>y\<rfloor>" by simp
  with True show ?thesis
    by (auto simp: round_half_even_def Let_def)
next
  case False
  with assms have "\<lfloor>x\<rfloor> < \<lfloor>y\<rfloor>"
    using floor_mono [of x y] by linarith
  moreover have "round_half_even x \<le> \<lfloor>x\<rfloor> + 1"
    by (simp add: round_half_even_def Let_def)
  moreover have "\<lfloor>y\<rfloor> \<le> round_half_even y"
    by (simp add: round_half_even_def Let_def)
  ultimately show ?thesis by linarith
qed

lemma round_half_even_of_int: "round_half_even (of_int k) = k"
  by (simp add: round_half_even_def)

lemma round_half_even_ge: "of_int k \<le> x \<Longrightarrow> k \<le> round_half_even x"
  using round_half_even_mono [of "of_int k" x] by (simp add: round_half_even_of_int)

lemma round_half_even_le: "x \<le> of_int k \<Longrightarrow> round_half_even x \<le> k"
  using round_half_even_mono [of x "of_int k"] by (simp add: round_half_even_of_int)

lemma round_half_even_minus: "round_half_even (- x) = - round_half_even x"
proof (cases "x \<in> \<int>")
  case True
  then obtain k where "x = of_int k"
    by (auto elim: Ints_cases)
  then have "- x = of_int (- k)" by simp
  then show ?thesis
    using \<open>x = of_int k\<close> by (simp only: round_half_even_of_int)
next
  case False
  have ne: "x \<noteq> of_int \<lfloor>x\<rfloor>"
  proof
    assume "x = of_int \<lfloor>x\<rfloor>"
    then have "x \<in> \<int>" by (rule ssubst) (rule Ints_of_int)
    with False show False ..
  qed
  then have fl: "\<lfloor>- x\<rfloor> = - \<lfloor>x\<rfloor> - 1"
    by (simp add: floor_minus ceiling_altdef)
  have lo: "of_int \<lfloor>x\<rfloor> \<le> x" and hi: "x < of_int \<lfloor>x\<rfloor> + 1"
    by linarith+
  show ?thesis
    unfolding round_half_even_def Let_def fl
    using ne lo hi by (auto simp: algebra_simps)
qed

lemma expo_bounds:
  assumes "x \<noteq> 0"
  shows "2 powi expo x \<le> \<bar>x\<bar>" and "\<bar>x\<bar> < 2 powi (expo x + 1)"
proof -
  obtain p q where pq: "quotient_of \<bar>x\<bar> = (p, q)"
    by fastforce
  then have q: "0 < q" and x: "\<bar>x\<bar> = of_int p / of_int q"
    by (simp_all add: quotient_of_denom_pos quotient_of_div)
  have qpos: "(0::rat) < of_int q" using q by simp
  from assms have "0 < \<bar>x\<bar>" by simp
  then have "(0::rat) < of_int p / of_int q" by (simp add: x)
  with qpos have "(0::rat) < of_int p" by (simp add: zero_less_divide_iff)
  then have p: "0 < p" by simp
  define d where "d = bitlen p - bitlen q"
  have bp: "1 \<le> bitlen p" and bq: "1 \<le> bitlen q"
    using p q by (simp_all add: bitlen_alt_def)
  have pow: "(2::rat) powi k = of_int (2 ^ nat k)" if "0 \<le> k" for k
    using that by (simp add: power_int_def)
  from bitlen_bounds [OF p] have "(of_int (2 ^ nat (bitlen p - 1)) :: rat) \<le> of_int p"
    and "(of_int p :: rat) < of_int (2 ^ nat (bitlen p))"
    by (simp_all only: of_int_le_iff of_int_less_iff)
  then have p1: "(2::rat) powi (bitlen p - 1) \<le> of_int p"
    and p2: "of_int p < (2::rat) powi bitlen p"
    using bp by (simp_all only: pow [symmetric])
  from bitlen_bounds [OF q] have "(of_int (2 ^ nat (bitlen q - 1)) :: rat) \<le> of_int q"
    and "(of_int q :: rat) < of_int (2 ^ nat (bitlen q))"
    by (simp_all only: of_int_le_iff of_int_less_iff)
  then have q1: "(2::rat) powi (bitlen q - 1) \<le> of_int q"
    and q2: "of_int q < (2::rat) powi bitlen q"
    using bq by (simp_all only: pow [symmetric])
  have "of_int p / of_int q < (2::rat) powi bitlen p / of_int q"
    using p2 qpos by (simp add: divide_strict_right_mono)
  also have "\<dots> \<le> 2 powi bitlen p / 2 powi (bitlen q - 1)"
    using q1 qpos by (intro divide_left_mono) simp_all
  finally have "\<bar>x\<bar> < 2 powi bitlen p / 2 powi (bitlen q - 1)"
    by (simp add: x)
  then have up: "\<bar>x\<bar> < 2 powi (d + 1)"
    by (simp add: d_def power_int_diff [symmetric] algebra_simps)
  have "(2::rat) powi (bitlen p - 1) / 2 powi bitlen q < 2 powi (bitlen p - 1) / of_int q"
    using q2 qpos by (intro divide_strict_left_mono) simp_all
  also have "\<dots> \<le> of_int p / of_int q"
    using p1 qpos by (simp add: divide_right_mono)
  finally have "2 powi (bitlen p - 1) / 2 powi bitlen q < \<bar>x\<bar>"
    by (simp add: x)
  then have low: "2 powi (d - 1) < \<bar>x\<bar>"
    by (simp add: d_def power_int_diff [symmetric] algebra_simps)
  have e: "expo x = (if 2 powi d \<le> \<bar>x\<bar> then d else d - 1)"
    by (simp add: expo_def pq d_def Let_def)
  show "2 powi expo x \<le> \<bar>x\<bar>"
    using low by (simp add: e)
  show "\<bar>x\<bar> < 2 powi (expo x + 1)"
    using up by (simp add: e)
qed


lemma expo_mono:
  assumes "x \<noteq> 0" and "\<bar>x\<bar> \<le> \<bar>y\<bar>"
  shows "expo x \<le> expo y"
proof (rule ccontr)
  assume "\<not> expo x \<le> expo y"
  then have "expo y + 1 \<le> expo x" by simp
  then have "(2::rat) powi (expo y + 1) \<le> 2 powi expo x"
    by (intro power_int_increasing) simp_all
  moreover from assms have "y \<noteq> 0" by auto
  ultimately show False
    using expo_bounds(1) [OF assms(1)] expo_bounds(2) [of y] assms(2) by linarith
qed

lemma expo_minus: "expo (- x) = expo x"
  by (simp add: expo_def)

lemma py_float_0: "py_float 0 = 0"
  by (simp add: py_float_def round_half_even_def)

lemma py_float_minus: "py_float (- x) = - py_float x"
  by (simp add: py_float_def expo_minus Let_def round_half_even_minus)

text \<open>A float is a multiple of its unit in the last place.\<close>

lemma py_float_ge_pow2:
  assumes "2 powi k \<le> x" and "- 1022 \<le> k"
  shows "2 powi k \<le> py_float x"
proof -
  have "(0::rat) < 2 powi k" by simp
  with assms(1) have pos: "0 < x" by linarith
  then have nz: "x \<noteq> 0" by simp
  have ke: "k \<le> expo x"
  proof (rule ccontr)
    assume "\<not> k \<le> expo x"
    then have "(2::rat) powi (expo x + 1) \<le> 2 powi k"
      by (intro power_int_increasing) simp_all
    with expo_bounds(2) [OF nz] assms(1) pos show False by simp
  qed
  define u where "u = max (expo x) (- 1022) - 52"
  have u: "u = expo x - 52" using ke assms(2) by (simp add: u_def)
  have "(2::rat) powi expo x / 2 powi u = 2 powi 52"
    by (simp add: u power_int_diff [symmetric])
  moreover have "2 powi expo x / 2 powi u \<le> x / 2 powi u"
    using expo_bounds(1) [OF nz] pos by (simp add: divide_right_mono)
  ultimately have "of_int (2 ^ 52) \<le> x / 2 powi u"
    by simp
  then have "2 ^ 52 \<le> round_half_even (x / 2 powi u)"
    by (rule round_half_even_ge)
  then have "(2::rat) ^ 52 \<le> of_int (round_half_even (x / 2 powi u))"
    by (metis of_int_le_iff of_int_numeral of_int_power)
  then have A: "(2::rat) ^ 52 * 2 powi u \<le> of_int (round_half_even (x / 2 powi u)) * 2 powi u"
    by (intro mult_right_mono) simp_all
  have B: "(2::rat) powi expo x = 2 ^ 52 * 2 powi u"
    using power_int_add [of "2::rat" 52 u] by (simp add: u)
  have "(2::rat) powi k \<le> 2 powi expo x"
    using ke by (intro power_int_increasing) simp_all
  also note B
  also note A
  finally show ?thesis
    unfolding py_float_def Let_def u_def [symmetric] .
qed

lemma py_float_le_pow2:
  assumes "0 \<le> x" and "x \<le> 2 powi k" and "max (expo x) (- 1022) - 52 \<le> k"
  shows "py_float x \<le> 2 powi k"
proof -
  define u where "u = max (expo x) (- 1022) - 52"
  have uk: "u \<le> k" using assms(3) by (simp add: u_def)
  then have "(2::rat) powi k / 2 powi u = 2 powi int (nat (k - u))"
    by (simp add: power_int_diff [symmetric])
  also have "\<dots> = of_int (2 ^ nat (k - u))"
    by (simp only: power_int_of_nat) simp
  finally have eq: "(2::rat) powi k / 2 powi u = of_int (2 ^ nat (k - u))" .
  have "x / 2 powi u \<le> 2 powi k / 2 powi u"
    using assms(2) by (simp add: divide_right_mono)
  with eq have "round_half_even (x / 2 powi u) \<le> 2 ^ nat (k - u)"
    by (intro round_half_even_le) simp
  then have "(of_int (round_half_even (x / 2 powi u)) :: rat) \<le> of_int (2 ^ nat (k - u))"
    by (simp only: of_int_le_iff)
  then have "(of_int (round_half_even (x / 2 powi u)) :: rat) * 2 powi u
      \<le> of_int (2 ^ nat (k - u)) * 2 powi u"
    by (intro mult_right_mono) simp_all
  then have "(of_int (round_half_even (x / 2 powi u)) :: rat) * 2 powi u
      \<le> (2 powi k / 2 powi u) * 2 powi u"
    by (simp only: eq)
  then show ?thesis
    by (simp add: py_float_def Let_def flip: u_def)
qed

lemma py_float_mono_pos:
  assumes "0 \<le> x" and "x \<le> y"
  shows "py_float x \<le> py_float y"
proof (cases "x = 0")
  case True
  have "0 \<le> round_half_even (y / 2 powi (max (expo y) (- 1022) - 52))"
    using assms by (intro round_half_even_ge) simp
  then have "0 \<le> py_float y"
    by (simp add: py_float_def Let_def)
  then show ?thesis
    by (simp only: True py_float_0)
next
  case False
  with assms have xpos: "0 < x" and ypos: "0 < y" by simp_all
  define ux where "ux = max (expo x) (- 1022) - 52"
  define uy where "uy = max (expo y) (- 1022) - 52"
  have exy: "expo x \<le> expo y"
    using False assms by (intro expo_mono) simp_all
  show ?thesis
  proof (cases "ux = uy")
    case True
    have "x / 2 powi uy \<le> y / 2 powi uy"
      using assms(2) by (simp add: divide_right_mono)
    then have "round_half_even (x / 2 powi uy) \<le> round_half_even (y / 2 powi uy)"
      by (rule round_half_even_mono)
    then have "(of_int (round_half_even (x / 2 powi uy)) :: rat) * 2 powi uy
        \<le> of_int (round_half_even (y / 2 powi uy)) * 2 powi uy"
      by (intro mult_right_mono) simp_all
    then show ?thesis
      using True by (simp add: py_float_def Let_def flip: ux_def uy_def)
  next
    case diff: False
    with exy have big: "- 1022 < expo y" and lt: "expo x < expo y"
      by (auto simp: ux_def uy_def max_def split: if_splits)
    have "x < 2 powi (expo x + 1)"
      using expo_bounds(2) [OF False] xpos by simp
    also have "(2::rat) powi (expo x + 1) \<le> 2 powi expo y"
      using lt by (intro power_int_increasing) simp_all
    finally have "x \<le> 2 powi expo y" by simp
    moreover have "max (expo x) (- 1022) - 52 \<le> expo y"
      using big lt by simp
    ultimately have "py_float x \<le> 2 powi expo y"
      using assms(1) by (intro py_float_le_pow2)
    moreover have "2 powi expo y \<le> py_float y"
      using expo_bounds(1) [of y] ypos big by (intro py_float_ge_pow2) simp_all
    ultimately show ?thesis by simp
  qed
qed

lemma py_float_nonneg: "0 \<le> x \<Longrightarrow> 0 \<le> py_float x"
  using py_float_mono_pos [of 0 x] by (simp add: py_float_0)

lemma py_float_mono:
  assumes "x \<le> y"
  shows "py_float x \<le> py_float y"
proof (cases "0 \<le> x")
  case True
  then show ?thesis using assms by (rule py_float_mono_pos)
next
  case xneg: False
  show ?thesis
  proof (cases "0 \<le> y")
    case True
    have "0 \<le> py_float (- x)" using xneg by (intro py_float_nonneg) simp
    then have "py_float x \<le> 0" by (simp add: py_float_minus)
    with py_float_nonneg [OF True] show ?thesis by simp
  next
    case False
    then have "py_float (- y) \<le> py_float (- x)"
      using assms by (intro py_float_mono_pos) simp_all
    then show ?thesis by (simp add: py_float_minus)
  qed
qed

lemma py_round_mono: "x \<le> y \<Longrightarrow> py_round x n \<le> py_round y n"
  unfolding py_round_def
  by (intro py_float_mono divide_right_mono) (simp_all add: round_half_even_mono mult_right_mono)

lemma py_round_nonneg: "0 \<le> x \<Longrightarrow> 0 \<le> py_round x n"
  unfolding py_round_def
  by (intro py_float_nonneg divide_nonneg_nonneg) (simp_all add: round_half_even_ge)

text \<open>Every float is a whole multiple of the smallest positive one.\<close>

lemma py_float_grid: "\<exists>m::int. py_float y = of_int m * 2 powi (- 1074)"
proof -
  define u where "u = max (expo y) (- 1022) - 52"
  have u: "0 \<le> u + 1074" by (simp add: u_def)
  have "(2::rat) powi u = 2 powi (u + 1074) * 2 powi (- 1074)"
    using power_int_add [of "2::rat" "u + 1074" "- 1074"] by simp
  also have "(2::rat) powi (u + 1074) = of_int (2 ^ nat (u + 1074))"
    using u by (simp add: power_int_def)
  finally have "py_float y =
      of_int (round_half_even (y / 2 powi u) * 2 ^ nat (u + 1074)) * 2 powi (- 1074)"
    by (simp add: py_float_def Let_def flip: u_def)
  then show ?thesis ..
qed

lemma py_float_pos:
  assumes "2 powi (- 1074) \<le> x"
  shows "0 < py_float x"
proof -
  have g: "(0::rat) < 2 powi (- 1074)" by simp
  with assms have pos: "0 < x" by linarith
  show ?thesis
  proof (cases "- 1022 \<le> expo x")
    case True
    have "2 powi expo x \<le> x"
      using expo_bounds(1) [of x] pos by simp
    then have "2 powi expo x \<le> py_float x"
      using True by (rule py_float_ge_pow2)
    moreover have "(0::rat) < 2 powi expo x" by simp
    ultimately show ?thesis by linarith
  next
    case False
    then have u: "max (expo x) (- 1022) - 52 = - 1074" by simp
    have "of_int 1 \<le> x / 2 powi (- 1074)"
      using assms g by (simp add: le_divide_eq)
    then have "1 \<le> round_half_even (x / 2 powi (- 1074))"
      by (rule round_half_even_ge)
    then have "(1::rat) \<le> of_int (round_half_even (x / 2 powi (- 1074)))"
      by simp
    then have "1 * 2 powi (- 1074) \<le> of_int (round_half_even (x / 2 powi (- 1074))) * (2::rat) powi (- 1074)"
      by (intro mult_right_mono) simp_all
    with g show ?thesis
      unfolding py_float_def Let_def u by linarith
  qed
qed

lemma float_sub_neg:
  assumes "is_float b" and "b < py_float y"
  shows "float_sub b (py_float y) < 0"
proof -
  let ?g = "(2::rat) powi (- 1074)"
  have g: "0 < ?g" by simp
  from py_float_grid [of b] assms(1) obtain mb :: int where mb: "b = of_int mb * ?g"
    by (auto simp: is_float_def)
  from py_float_grid [of y] obtain mc :: int where mc: "py_float y = of_int mc * ?g"
    by blast
  from assms(2) g have "(of_int mb :: rat) < of_int mc"
    unfolding mb mc by (simp only: mult_less_cancel_right_pos)
  then have "mb + 1 \<le> mc" by simp
  then have "(of_int (mb + 1) :: rat) \<le> of_int mc"
    by (simp only: of_int_le_iff)
  then have "of_int (mb + 1) * ?g \<le> of_int mc * ?g"
    using g by (intro mult_right_mono) simp_all
  then have "?g \<le> py_float y - b"
    unfolding mb mc by (simp add: algebra_simps)
  then have "0 < py_float (py_float y - b)"
    by (rule py_float_pos)
  moreover have "py_float (b - py_float y) = - py_float (py_float y - b)"
    using py_float_minus [of "py_float y - b"] by simp
  ultimately show ?thesis
    by (simp add: float_sub_def)
qed

section \<open>Fees and rates are positive\<close>

text \<open>The literals of the program, in lowest terms.\<close>

lemma float_literals:
  shows "py_float 5 = 5" and "py_float 15000 = 15000"
    and "0 \<le> py_float (3 / 250)" and "0 \<le> py_float (3 / 200)"
    and "0 \<le> py_float (1 / 2)" and "0 \<le> py_float 1"
    and "0 < py_float (93 / 100)" and "0 < py_float 1620" and "0 < py_float 1750"
    and "0 < py_float (23 / 25)"
  by code_simp+

lemma uniform_bounds:
  shows "1 / 2 \<le> py_float (17 / 20)" and "py_float (17 / 20) \<le> py_float (23 / 20)"
    and "1 / 2 \<le> py_float (4 / 5)" and "py_float (4 / 5) \<le> py_float (6 / 5)"
  by code_simp+

lemma float_mul_mono: "0 \<le> c \<Longrightarrow> x \<le> y \<Longrightarrow> float_mul x c \<le> float_mul y c"
  unfolding float_mul_def by (intro py_float_mono mult_right_mono)

lemma float_add_mono: "x \<le> y \<Longrightarrow> float_add x c \<le> float_add y c"
  unfolding float_add_def by (intro py_float_mono) simp

lemma float_mul_nonneg: "0 \<le> x \<Longrightarrow> 0 \<le> y \<Longrightarrow> 0 \<le> float_mul x y"
  unfolding float_mul_def by (intro py_float_nonneg mult_nonneg_nonneg)

lemma float_add_nonneg: "0 \<le> x \<Longrightarrow> 0 \<le> y \<Longrightarrow> 0 \<le> float_add x y"
  unfolding float_add_def by (intro py_float_nonneg add_nonneg_nonneg)

lemma float_sub_nonneg: "y \<le> x \<Longrightarrow> 0 \<le> float_sub x y"
  unfolding float_sub_def by (intro py_float_nonneg) simp

lemma uniform_pos:
  assumes "1 / 2 \<le> a" and "a \<le> b" and "0 \<le> u"
  shows "0 < uniform a b u"
proof -
  have "0 \<le> float_mul (float_sub b a) u"
    using assms(2,3) by (intro float_mul_nonneg float_sub_nonneg)
  with assms(1) have "2 powi (- 1) \<le> a + float_mul (float_sub b a) u"
    by (simp add: power_int_minus)
  then have "2 powi (- 1) \<le> py_float (a + float_mul (float_sub b a) u)"
    by (rule py_float_ge_pow2) simp
  then show ?thesis
    by (simp add: uniform_def float_add_def power_int_minus)
qed

lemma base_rates_pos: "base_rates k = Some r \<Longrightarrow> 0 < r"
  by (auto simp: base_rates_def float_literals split: if_splits)

lemma uniform_literals_pos:
  assumes "0 \<le> u"
  shows "0 < uniform (py_float (17 / 20)) (py_float (23 / 20)) u"
    and "0 < uniform (py_float (4 / 5)) (py_float (6 / 5)) u"
  by (rule uniform_pos [OF uniform_bounds(1,2) assms])
    (rule uniform_pos [OF uniform_bounds(3,4) assms])

lemma resolve_rate_pos:
  assumes "0 \<le> u"
  shows "0 < resolve_rate source target u"
proof (cases "base_rates (source, target)")
  case None
  with assms show ?thesis
    by (simp add: resolve_rate_def uniform_literals_pos)
next
  case (Some r)
  then show ?thesis
    by (simp add: resolve_rate_def base_rates_pos)
qed

lemma calculate_fees_mono: "a1 \<le> a2 \<Longrightarrow> calculate_fees a1 \<le> calculate_fees a2"
  unfolding calculate_fees_def
  by (intro py_round_mono float_add_mono float_mul_mono) (simp_all add: float_literals)

lemma calculate_fees_nonneg: "0 \<le> a \<Longrightarrow> 0 \<le> calculate_fees a"
  unfolding calculate_fees_def
  by (intro py_round_nonneg float_add_nonneg float_mul_nonneg) (simp_all add: float_literals)

lemma App_calculate_fees_mono: "a1 \<le> a2 \<Longrightarrow> App_calculate_fees a1 \<le> App_calculate_fees a2"
  unfolding App_calculate_fees_def
  by (intro py_round_mono float_add_mono float_mul_mono) (simp_all add: float_literals)

lemma App_calculate_fees_nonneg: "0 \<le> a \<Longrightarrow> 0 \<le> App_calculate_fees a"
  unfolding App_calculate_fees_def
  by (intro py_round_nonneg float_add_nonneg float_mul_nonneg) (simp_all add: float_literals)

lemma py_round_cents: "\<exists>k::int. py_round x 2 = py_float (of_int k / 100)"
  unfolding py_round_def by (rule exI [of _ "round_half_even (x * 10 ^ 2)"]) simp

text \<open>
  Claim C9. The fee is non-negative and does not decrease when the amount grows: for
  amounts \<open>0 < a1 \<le> a2\<close>, \<open>0 \<le> calculate_fees a1 \<le> calculate_fees a2\<close>, for the fee
  rule of app.py and for the one of App.py, both computed on floats.
\<close>

theorem calculate_fees_nonneg_mono:
  assumes "0 < a1" and "a1 \<le> a2"
  shows "0 \<le> calculate_fees a1 \<and> calculate_fees a1 \<le> calculate_fees a2
    \<and> 0 \<le> App_calculate_fees a1 \<and> App_calculate_fees a1 \<le> App_calculate_fees a2"
  using assms
  by (simp add: calculate_fees_nonneg calculate_fees_mono App_calculate_fees_nonneg
      App_calculate_fees_mono)

theorem calculate_fees_nonneg_mono_witness:
  "(0::rat) < 6.25 \<and> (6.25::rat) \<le> 13.75
    \<and> 0 \<le> calculate_fees 6.25 \<and> calculate_fees 6.25 \<le> calculate_fees 13.75
    \<and> 0 \<le> App_calculate_fees 6.25 \<and> App_calculate_fees 6.25 \<le> App_calculate_fees 13.75
    \<and> calculate_fees 6.25 = py_float 0.57 \<and> calculate_fees 13.75 = py_float 0.67
    \<and> App_calculate_fees 1.0 = py_float 1.01 \<and> App_calculate_fees 11 = py_float 1.17"
proof -
  have "calculate_fees 6.25 = py_float 0.57" and "calculate_fees 13.75 = py_float 0.67"
    and "App_calculate_fees 1.0 = py_float 1.01" and "App_calculate_fees 11 = py_float 1.17"
    by code_simp+
  then show ?thesis
    using calculate_fees_nonneg_mono [of "6.25" "13.75"] by simp
qed

text \<open>
  Claim C8. For every pair of currency codes the rate resolution returns a strictly
  positive rate, whatever the random draw; it has no failing branch. For a pair of the
  pinned table the rate is the table's entry and does not depend on the draw.
\<close>

theorem resolve_rate_positive:
  assumes "0 \<le> u" and "u < 1"
  shows "0 < resolve_rate source target u \<and> 0 < App_resolve_rate source target u
    \<and> (base_rates (source, target) \<noteq> None \<longrightarrow>
         base_rates (source, target) = Some (resolve_rate source target u)
         \<and> resolve_rate source target u' = resolve_rate source target u)"
proof -
  have "0 < resolve_rate source target u"
    using assms(1) by (rule resolve_rate_pos)
  moreover have "0 < App_resolve_rate source target u"
    using assms(1) by (simp add: App_resolve_rate_def uniform_literals_pos float_literals)
  moreover have "base_rates (source, target) = Some (resolve_rate source target u)
      \<and> resolve_rate source target u' = resolve_rate source target u"
    if "base_rates (source, target) \<noteq> None"
    using that by (auto simp: resolve_rate_def)
  ultimately show ?thesis by blast
qed

theorem resolve_rate_positive_witness:
  "(0::rat) \<le> 1 / 2 \<and> (1 / 2 :: rat) < 1
    \<and> 0 < resolve_rate ''USD'' ''NGN'' (1 / 2) \<and> 0 < App_resolve_rate ''USD'' ''NGN'' (1 / 2)
    \<and> base_rates (''USD'', ''NGN'') \<noteq> None
    \<and> base_rates (''USD'', ''NGN'') = Some (resolve_rate ''USD'' ''NGN'' (1 / 2))
    \<and> resolve_rate ''USD'' ''NGN'' 0 = resolve_rate ''USD'' ''NGN'' (1 / 2)
    \<and> resolve_rate ''NGN'' ''USD'' (1 / 2) = 1
    \<and> 0 < resolve_rate ''NGN'' ''USD'' (1 / 2)"
proof -
  have "base_rates (''USD'', ''NGN'') \<noteq> None"
    by (simp add: base_rates_def)
  moreover have "resolve_rate ''NGN'' ''USD'' (1 / 2) = 1"
    by code_simp
  ultimately show ?thesis
    using resolve_rate_positive [of "1 / 2" "''USD''" "''NGN''" 0]
      resolve_rate_positive [of "1 / 2" "''NGN''" "''USD''" 0]
    by simp
qed

text \<open>
  Claim C6. For an amount within the bounds, \<^verbatim>\<open>create_quote\<close> returns a quote with a
  positive rate, a non-negative fee and an amount received equal to
  \<^verbatim>\<open>round(amount * rate - fee, 2)\<close>, a float that is a whole number of cents; for
  100.00 US dollars to naira the rate is 1620.0, the fee 1.70 and the amount received
  161998.30.
\<close>

theorem create_quote_valid:
  "(min_amount \<le> amount \<and> amount \<le> max_amount \<and> 0 \<le> u \<and> u < 1 \<longrightarrow>
      0 < rate (fst (create_quote s source target amount uuid now u))
      \<and> 0 \<le> fees (fst (create_quote s source target amount uuid now u))
      \<and> q_amount_sent (fst (create_quote s source target amount uuid now u)) = amount
      \<and> q_amount_received (fst (create_quote s source target amount uuid now u)) =
          py_round (float_sub
            (float_mul amount (rate (fst (create_quote s source target amount uuid now u))))
            (fees (fst (create_quote s source target amount uuid now u)))) 2
      \<and> (\<exists>k::int. q_amount_received (fst (create_quote s source target amount uuid now u)) =
            py_float (of_int k / 100)))
   \<and> rate (fst (create_quote s ''USD'' ''NGN'' 100.00 uuid now u)) = py_float 1620.0
   \<and> fees (fst (create_quote s ''USD'' ''NGN'' 100.00 uuid now u)) = py_float 1.70
   \<and> q_amount_received (fst (create_quote s ''USD'' ''NGN'' 100.00 uuid now u)) =
       py_float 161998.30"
proof -
  have "0 \<le> calculate_fees amount" if "min_amount \<le> amount"
    using that by (intro calculate_fees_nonneg) (simp add: min_amount_def float_literals)
  then have general: "min_amount \<le> amount \<and> amount \<le> max_amount \<and> 0 \<le> u \<and> u < 1 \<longrightarrow>
      0 < rate (fst (create_quote s source target amount uuid now u))
      \<and> 0 \<le> fees (fst (create_quote s source target amount uuid now u))
      \<and> q_amount_sent (fst (create_quote s source target amount uuid now u)) = amount
      \<and> q_amount_received (fst (create_quote s source target amount uuid now u)) =
          py_round (float_sub
            (float_mul amount (rate (fst (create_quote s source target amount uuid now u))))
            (fees (fst (create_quote s source target amount uuid now u)))) 2
      \<and> (\<exists>k::int. q_amount_received (fst (create_quote s source target amount uuid now u)) =
            py_float (of_int k / 100))"
    by (simp add: create_quote_def Let_def resolve_rate_pos py_round_cents)
  have r: "resolve_rate ''USD'' ''NGN'' u = py_float 1620.0"
    by (simp add: resolve_rate_def base_rates_def)
  have f: "calculate_fees 100.00 = py_float 1.70"
    by code_simp
  have a: "py_round (float_sub (float_mul 100.00 (py_float 1620.0)) (py_float 1.70)) 2 =
      py_float 161998.30"
    by code_simp
  have example: "rate (fst (create_quote s ''USD'' ''NGN'' 100.00 uuid now u)) = py_float 1620.0
      \<and> fees (fst (create_quote s ''USD'' ''NGN'' 100.00 uuid now u)) = py_float 1.70
      \<and> q_amount_received (fst (create_quote s ''USD'' ''NGN'' 100.00 uuid now u)) =
          py_float 161998.30"
    unfolding create_quote_def Let_def r f a by simp
  from general example show ?thesis by blast
qed

theorem create_quote_valid_witness:
  "min_amount \<le> 7.5 \<and> 7.5 \<le> max_amount \<and> (0::rat) \<le> 1 / 2 \<and> (1 / 2 :: rat) < 1
   \<and> 0 < rate (fst (create_quote init_session ''USD'' ''EUR'' 7.5 ''q1'' 0 (1 / 2)))
   \<and> 0 \<le> fees (fst (create_quote init_session ''USD'' ''EUR'' 7.5 ''q1'' 0 (1 / 2)))
   \<and> fees (fst (create_quote init_session ''USD'' ''EUR'' 7.5 ''q1'' 0 (1 / 2))) = py_float 0.59
   \<and> q_amount_received (fst (create_quote init_session ''USD'' ''EUR'' 7.5 ''q1'' 0 (1 / 2))) =
       py_float 6.39
   \<and> fees (fst (create_quote init_session ''USD'' ''EUR'' 6.25 ''q1'' 0 (1 / 2))) = py_float 0.57
   \<and> q_amount_received (fst (create_quote init_session ''USD'' ''EUR'' 6.25 ''q1'' 0 (1 / 2))) =
       py_float 5.24"
proof -
  have b: "min_amount \<le> 7.5 \<and> 7.5 \<le> max_amount \<and> (0::rat) \<le> 1 / 2 \<and> (1 / 2 :: rat) < 1"
    by (simp add: min_amount_def max_amount_def float_literals)
  have "fees (fst (create_quote init_session ''USD'' ''EUR'' 7.5 ''q1'' 0 (1 / 2))) = py_float 0.59"
    and "q_amount_received (fst (create_quote init_session ''USD'' ''EUR'' 7.5 ''q1'' 0 (1 / 2))) =
       py_float 6.39"
    and "fees (fst (create_quote init_session ''USD'' ''EUR'' 6.25 ''q1'' 0 (1 / 2))) = py_float 0.57"
    and "q_amount_received (fst (create_quote init_session ''USD'' ''EUR'' 6.25 ''q1'' 0 (1 / 2))) =
       py_float 5.24"
    by code_simp+
  with b show ?thesis
    using create_quote_valid [of "7.5" "1 / 2" init_session "''USD''" "''EUR''" "''q1''" 0]
    by simp
qed

section \<open>The quote panel, case by case\<close>

lemma total_seconds_le_0: "total_seconds d \<le> 0 \<longleftrightarrow> d \<le> 0"
proof
  assume "d \<le> 0"
  then have "(of_int d :: rat) / 1000000 \<le> 0"
    by (simp add: divide_le_0_iff)
  then have "py_float (of_int d / 1000000) \<le> py_float 0"
    by (rule py_float_mono)
  then show "total_seconds d \<le> 0"
    by (simp add: total_seconds_def py_float_0)
next
  assume le: "total_seconds d \<le> 0"
  show "d \<le> 0"
  proof (rule ccontr)
    assume "\<not> d \<le> 0"
    then have "1 \<le> d" by simp
    then have "(1::rat) \<le> of_int d" by simp
    then have "2 powi (- 20) \<le> (of_int d :: rat) / 1000000"
      by (simp add: power_int_minus le_divide_eq)
    then have "2 powi (- 20) \<le> py_float (of_int d / 1000000)"
      by (rule py_float_ge_pow2) simp
    moreover have "(0::rat) < 2 powi (- 20)" by simp
    ultimately show False
      using le by (simp add: total_seconds_def)
  qed
qed

lemma remaining_le_0: "max 0 (total_seconds (expiry q - now)) \<le> 0 \<longleftrightarrow> expiry q \<le> now"
  by (simp add: total_seconds_le_0)

lemma quote_panel_none: "current_quote s = None \<Longrightarrow> quote_panel s ph rp now c uuid stamp = (Inr None, s)"
  by (simp add: quote_panel_def)

lemma quote_panel_expired:
  "current_quote s = Some q \<Longrightarrow> expiry q \<le> now \<Longrightarrow>
    quote_panel s ph rp now c uuid stamp = (Inl QuoteExpired, s\<lparr>current_quote := None\<rparr>)"
  by (simp add: quote_panel_def Let_def total_seconds_le_0)

lemma quote_panel_idle:
  "current_quote s = Some q \<Longrightarrow> now < expiry q \<Longrightarrow>
    quote_panel s ph rp now False uuid stamp = (Inr None, s)"
  by (simp add: quote_panel_def Let_def total_seconds_le_0)

lemma quote_panel_confirm:
  "current_quote s = Some q \<Longrightarrow> now < expiry q \<Longrightarrow>
    quote_panel s ph rp now True uuid stamp =
      (case confirm_transfer s ph rp q uuid stamp of
         (Inl e, s') \<Rightarrow> (Inl e, s')
       | (Inr tx, s') \<Rightarrow> (Inr (Some tx), s'))"
  by (simp add: quote_panel_def Let_def total_seconds_le_0)

lemma confirm_transfer_ok:
  assumes "users s ph = Some u" and "currencies u (source_currency q) = Some c"
  shows "confirm_transfer s ph rp q uuid stamp =
    (Inr \<lparr>tx_id = uuid, sender_id = user_id u, receiver_id = rp,
          amount_sent = q_amount_sent q, currency_sent = source_currency q,
          amount_received = q_amount_received q, currency_received = target_currency q,
          quote_id = q_id q, status = ''Settled'', timestamp = stamp\<rparr>,
     s\<lparr>transactions := transactions s @
          [\<lparr>tx_id = uuid, sender_id = user_id u, receiver_id = rp,
            amount_sent = q_amount_sent q, currency_sent = source_currency q,
            amount_received = q_amount_received q, currency_received = target_currency q,
            quote_id = q_id q, status = ''Settled'', timestamp = stamp\<rparr>],
        users := (users s)(ph \<mapsto> u\<lparr>currencies := (currencies u)(source_currency q \<mapsto>
          c\<lparr>balance := float_sub (balance c) (float_add (q_amount_sent q) (fees q))\<rparr>)\<rparr>),
        current_quote := None\<rparr>)"
  using assms by (simp add: confirm_transfer_def Let_def)

lemma confirm_transfer_Inr:
  assumes "confirm_transfer s ph rp q uuid stamp = (Inr tx, s')"
  shows "\<exists>u c. users s ph = Some u \<and> currencies u (source_currency q) = Some c"
  using assms by (auto simp: confirm_transfer_def Let_def split: option.splits)

lemma quote_panel_Some:
  assumes "fst (quote_panel s ph rp now c uuid stamp) = Inr (Some tx)"
  shows "\<exists>q u cur. current_quote s = Some q \<and> now < expiry q \<and> c
    \<and> users s ph = Some u \<and> currencies u (source_currency q) = Some cur"
proof -
  from assms obtain q where q: "current_quote s = Some q"
    by (cases "current_quote s") (auto simp: quote_panel_def)
  from assms q have live: "now < expiry q"
    using quote_panel_expired [of s q now ph rp c uuid stamp] by (cases "now < expiry q") auto
  from assms q live have c: c
    using quote_panel_idle [of s q now ph rp uuid stamp] by (cases c) auto
  from assms q live c obtain s' where "confirm_transfer s ph rp q uuid stamp = (Inr tx, s')"
    by (auto simp: quote_panel_confirm split: prod.splits sum.splits)
  from confirm_transfer_Inr [OF this] q live c show ?thesis by blast
qed

lemma quote_panel_ok:
  assumes "current_quote s = Some q" and "now < expiry q"
    and "users s ph = Some u" and "currencies u (source_currency q) = Some c"
  shows "quote_panel s ph rp now True uuid stamp =
    (Inr (Some \<lparr>tx_id = uuid, sender_id = user_id u, receiver_id = rp,
          amount_sent = q_amount_sent q, currency_sent = source_currency q,
          amount_received = q_amount_received q, currency_received = target_currency q,
          quote_id = q_id q, status = ''Settled'', timestamp = stamp\<rparr>),
     s\<lparr>transactions := transactions s @
          [\<lparr>tx_id = uuid, sender_id = user_id u, receiver_id = rp,
            amount_sent = q_amount_sent q, currency_sent = source_currency q,
            amount_received = q_amount_received q, currency_received = target_currency q,
            quote_id = q_id q, status = ''Settled'', timestamp = stamp\<rparr>],
        users := (users s)(ph \<mapsto> u\<lparr>currencies := (currencies u)(source_currency q \<mapsto>
          c\<lparr>balance := float_sub (balance c) (float_add (q_amount_sent q) (fees q))\<rparr>)\<rparr>),
        current_quote := None\<rparr>)"
  by (simp add: quote_panel_confirm [OF assms(1,2)] confirm_transfer_ok [OF assms(3,4)])

text \<open>What the handler leaves alone, whatever its outcome.\<close>

lemma confirm_transfer_quotes: "quotes (snd (confirm_transfer s ph rp q uuid stamp)) = quotes s"
  by (simp add: confirm_transfer_def Let_def split: option.splits)

lemma confirm_transfer_balance_of:
  "balance_of (snd (confirm_transfer s ph rp q uuid stamp)) p c =
     (if p = ph \<and> c = source_currency q \<and> isl (fst (confirm_transfer s ph rp q uuid stamp)) = False
      then map_option (\<lambda>b. float_sub b (float_add (q_amount_sent q) (fees q))) (balance_of s p c)
      else balance_of s p c)"
  by (auto simp: confirm_transfer_def Let_def balance_of_def split: option.splits)

lemma confirm_transfer_users_other:
  "p \<noteq> ph \<Longrightarrow> users (snd (confirm_transfer s ph rp q uuid stamp)) p = users s p"
  by (simp add: confirm_transfer_def Let_def split: option.splits)

lemma quote_panel_cases:
  "quote_panel s ph rp now c uuid stamp = (Inr None, s)
   \<or> quote_panel s ph rp now c uuid stamp = (Inl QuoteExpired, s\<lparr>current_quote := None\<rparr>)
   \<or> (\<exists>q. current_quote s = Some q \<and> now < expiry q \<and> c
        \<and> snd (quote_panel s ph rp now c uuid stamp) = snd (confirm_transfer s ph rp q uuid stamp)
        \<and> isl (fst (quote_panel s ph rp now c uuid stamp)) = isl (fst (confirm_transfer s ph rp q uuid stamp)))"
proof (cases "current_quote s")
  case None
  then show ?thesis by (simp add: quote_panel_none)
next
  case (Some q)
  show ?thesis
  proof (cases "now < expiry q")
    case False
    with Some show ?thesis by (simp add: quote_panel_expired)
  next
    case True
    show ?thesis
    proof (cases c)
      case False
      with Some True show ?thesis by (simp add: quote_panel_idle)
    next
      case c: True
      with Some True show ?thesis
        by (auto simp: quote_panel_confirm split: prod.splits sum.splits)
    qed
  qed
qed

end
